theory Spec2Isabelle
  imports Main
begin

section \<open>Python values, exceptions and the result dictionary\<close>

text \<open>
  The state module \<^verbatim>\<open>salt/states/rabbitmq_user.py\<close> is Python 2. Its functions return a
  dictionary \<^verbatim>\<open>ret\<close>, call the execution module through \<^verbatim>\<open>__salt__\<close> and read the
  dry-run flag from \<^verbatim>\<open>__opts__['test']\<close>. A Python exception that leaves a function is the
  \<open>Inl\<close> side of its result; \<^verbatim>\<open>CommandExecutionError\<close> (the only exception the execution
  module raises) carries its message as a string and is the \<open>Inl\<close> side of a backend call.
\<close>

datatype py_error = AttributeError | UnboundLocalError | KeyError

text \<open>A permission is the 3-tuple of the docstring of \<^verbatim>\<open>present\<close>: \<^verbatim>\<open>perm[0], perm[1], perm[2]\<close>.\<close>

type_synonym perm = "string \<times> string \<times> string"

text \<open>The \<^verbatim>\<open>tags\<close> argument: \<^verbatim>\<open>None\<close> (the default), a \<^verbatim>\<open>str\<close>, or a list of strings.\<close>

datatype tags = TagsNone | TagsStr string | TagsList "string list"

text \<open>The values that are stored under \<^verbatim>\<open>old\<close> and \<^verbatim>\<open>new\<close> of a change entry.\<close>

datatype pyval =
    PNone
  | PStr string
  | PList "string list"
  | PSet "string set"
  | PDict "string \<rightharpoonup> perm"

record change =
  old :: pyval
  new :: pyval

text \<open>
  \<^verbatim>\<open>ret = {'name': name, 'result': False, 'comment': '', 'changes': {}}\<close>. The value of
  \<^verbatim>\<open>'result'\<close> is \<^verbatim>\<open>True\<close>, \<^verbatim>\<open>False\<close> or \<^verbatim>\<open>None\<close>: \<open>Some True\<close>, \<open>Some False\<close>, \<open>None\<close>.
  The fields carry the prefix \<open>ret_\<close> because \<open>name\<close> is also the parameter of both
  entry points.
\<close>

record ret =
  ret_name :: string
  ret_result :: "bool option"
  ret_comment :: string
  ret_changes :: "string \<rightharpoonup> change"

text \<open>\<^verbatim>\<open>__opts__\<close>, of which only \<^verbatim>\<open>__opts__['test']\<close> is read.\<close>

record opts =
  test :: bool

section \<open>The execution module behind \<^verbatim>\<open>__salt__\<close>\<close>

text \<open>
  The functions \<^verbatim>\<open>rabbitmq.*\<close> are not part of the state module; they are a parameter
  of the model. Each takes the arguments the state module passes (the last one is
  \<^verbatim>\<open>runas\<close>), reads and updates a backend state of any type \<open>'s\<close>, and either returns a
  value or raises \<^verbatim>\<open>CommandExecutionError\<close> with a message.
\<close>

record 's backend =
  rabbitmq_user_exists :: "string \<Rightarrow> string option \<Rightarrow> 's \<Rightarrow> (string + bool) \<times> 's"
  rabbitmq_add_user :: "string \<Rightarrow> string option \<Rightarrow> string option \<Rightarrow> 's \<Rightarrow> (string + unit) \<times> 's"
  rabbitmq_change_password :: "string \<Rightarrow> string \<Rightarrow> string option \<Rightarrow> 's \<Rightarrow> (string + unit) \<times> 's"
  rabbitmq_clear_password :: "string \<Rightarrow> string option \<Rightarrow> 's \<Rightarrow> (string + unit) \<times> 's"
  rabbitmq_list_users :: "string option \<Rightarrow> 's \<Rightarrow> (string + (string \<rightharpoonup> string set)) \<times> 's"
  rabbitmq_set_user_tags :: "string \<Rightarrow> tags \<Rightarrow> string option \<Rightarrow> 's \<Rightarrow> (string + unit) \<times> 's"
  rabbitmq_list_user_permissions :: "string \<Rightarrow> string option \<Rightarrow> 's \<Rightarrow> (string + (string \<rightharpoonup> perm)) \<times> 's"
  rabbitmq_set_permissions ::
    "string \<Rightarrow> string \<Rightarrow> string \<Rightarrow> string \<Rightarrow> string \<Rightarrow> string option \<Rightarrow> 's \<Rightarrow> (string + unit) \<times> 's"
  rabbitmq_delete_user :: "string \<Rightarrow> string option \<Rightarrow> 's \<Rightarrow> (string + unit) \<times> 's"

text \<open>Every call through \<^verbatim>\<open>__salt__\<close> is logged with its arguments and its outcome.\<close>

datatype call =
    UserExists string "string option"
  | AddUser string "string option" "string option"
  | ChangePassword string string "string option"
  | ClearPassword string "string option"
  | ListUsers "string option"
  | SetUserTags string tags "string option"
  | ListUserPermissions string "string option"
  | SetPermissions string string string string string "string option"
  | DeleteUser string "string option"

datatype outcome = Returned | Raised string

type_synonym event = "call \<times> outcome"

record 's world =
  bstate :: 's
  calls :: "event list"

definition outcome_of :: "string + 'a \<Rightarrow> outcome" where
  "outcome_of r = (case r of Inl msg \<Rightarrow> Raised msg | Inr v \<Rightarrow> Returned)"

definition salt_call ::
  "call \<Rightarrow> ('s \<Rightarrow> (string + 'a) \<times> 's) \<Rightarrow> 's world \<Rightarrow> (string + 'a) \<times> 's world" where
  "salt_call c f w =
     (case f (bstate w) of
        (r, s') \<Rightarrow> (r, \<lparr>bstate = s', calls = calls w @ [(c, outcome_of r)]\<rparr>))"

section \<open>Python helpers\<close>

text \<open>\<^verbatim>\<open>'\'{0}\''.format(name)\<close>: the name between single quotes.\<close>

definition squote :: "string \<Rightarrow> string" where
  "squote s = CHR 0x27 # s @ [CHR 0x27]"

text \<open>\<^verbatim>\<open>'Error: {0}'.format(err)\<close>.\<close>

definition error_comment :: "string \<Rightarrow> string" where
  "error_comment err = ''Error: '' @ err"

text \<open>
  \<^verbatim>\<open>'...'.foramt(name)\<close> (line 123): \<^verbatim>\<open>str\<close> has no attribute \<^verbatim>\<open>foramt\<close>, so the
  attribute lookup raises \<^verbatim>\<open>AttributeError\<close> whatever the arguments are, before
  \<^verbatim>\<open>log.debug\<close> is entered.
\<close>

definition str_foramt :: "string \<Rightarrow> string \<Rightarrow> py_error + string" where
  "str_foramt fmt arg = Inl AttributeError"

text \<open>\<^verbatim>\<open>any((force, perms, tags))\<close> on the truth values of its elements.\<close>

fun py_any :: "bool list \<Rightarrow> bool" where
  "py_any [] = False"
| "py_any (x # xs) = (if x then True else py_any xs)"

text \<open>Truth value of the \<^verbatim>\<open>tags\<close> argument and of a stored value.\<close>

fun tags_truthy :: "tags \<Rightarrow> bool" where
  "tags_truthy TagsNone = False"
| "tags_truthy (TagsStr s) = (s \<noteq> [])"
| "tags_truthy (TagsList l) = (l \<noteq> [])"

fun truthy :: "pyval \<Rightarrow> bool" where
  "truthy PNone = False"
| "truthy (PStr s) = (s \<noteq> [])"
| "truthy (PList l) = (l \<noteq> [])"
| "truthy (PSet S) = (S \<noteq> {})"
| "truthy (PDict d) = (dom d \<noteq> {})"

fun tags_val :: "tags \<Rightarrow> pyval" where
  "tags_val TagsNone = PNone"
| "tags_val (TagsStr s) = PStr s"
| "tags_val (TagsList l) = PList l"

text \<open>\<^verbatim>\<open>str.split()\<close> without argument: the maximal runs of non-whitespace characters.\<close>

definition isspace :: "char \<Rightarrow> bool" where
  "isspace c = (c \<in> set [CHR 0x20, CHR 0x09, CHR 0x0A, CHR 0x0B, CHR 0x0C, CHR 0x0D])"

fun split_from :: "string \<Rightarrow> string \<Rightarrow> string list" where
  "split_from cur [] = (if cur = [] then [] else [cur])"
| "split_from cur (c # cs) =
     (if isspace c then (if cur = [] then split_from [] cs else cur # split_from [] cs)
      else split_from (cur @ [c]) cs)"

definition str_split :: "string \<Rightarrow> string list" where
  "str_split s = split_from [] s"

text \<open>
  \<^verbatim>\<open>x.update({vhost: perm})\<close>: a dict gets the key, a set gets the key as an element, and
  \<^verbatim>\<open>None\<close>, a \<^verbatim>\<open>str\<close> and a list have no attribute \<^verbatim>\<open>update\<close>.
\<close>

fun py_update :: "pyval \<Rightarrow> string \<Rightarrow> perm \<Rightarrow> py_error + pyval" where
  "py_update (PDict d) vhost perm = Inr (PDict (d(vhost \<mapsto> perm)))"
| "py_update (PSet S) vhost perm = Inr (PSet (insert vhost S))"
| "py_update PNone vhost perm = Inl AttributeError"
| "py_update (PStr s) vhost perm = Inl AttributeError"
| "py_update (PList l) vhost perm = Inl AttributeError"

section \<open>\<^verbatim>\<open>_check_perms_changes\<close> (lines 44--67)\<close>

text \<open>
  The two nested loops of lines 59--65 run over the items of every dict of \<^verbatim>\<open>newperms\<close>
  in order (a dict is the list of its items in iteration order). The local variable
  \<^verbatim>\<open>existing_perms\<close> is assigned only under \<^verbatim>\<open>if existing is None\<close>; otherwise it is unbound
  (\<open>None\<close> here) and reading it at line 61 raises \<^verbatim>\<open>UnboundLocalError\<close>.
\<close>

fun perm_need_change ::
  "(string \<rightharpoonup> perm) option \<Rightarrow> (string \<times> perm) list \<Rightarrow> bool \<Rightarrow> py_error + bool" where
  "perm_need_change existing_perms [] acc = Inr acc"
| "perm_need_change existing_perms ((vhost, perms) # rest) acc =
     (case existing_perms of
        None \<Rightarrow> Inl UnboundLocalError
      | Some ep \<Rightarrow>
          (case ep vhost of
             Some cur \<Rightarrow> perm_need_change existing_perms rest (if perms \<noteq> cur then True else acc)
           | None \<Rightarrow> perm_need_change existing_perms rest True))"

definition check_perms_changes ::
  "'s backend \<Rightarrow> string \<Rightarrow> (string \<times> perm) list list \<Rightarrow> string option \<Rightarrow>
   (string \<rightharpoonup> perm) option \<Rightarrow> 's world \<Rightarrow> (py_error + bool) \<times> 's world" where
  "check_perms_changes b name newperms runas existing w =
     (if newperms = [] then (Inr False, w)
      else
        (case existing of
           None \<Rightarrow>
             (case salt_call (ListUserPermissions name runas)
                     (rabbitmq_list_user_permissions b name runas) w of
                (Inl err, w') \<Rightarrow> (Inr False, w')
              | (Inr existing_perms, w') \<Rightarrow>
                  (perm_need_change (Some existing_perms) (concat newperms) False, w'))
         | Some e \<Rightarrow> (perm_need_change None (concat newperms) False, w)))"

section \<open>\<^verbatim>\<open>_check_tags_changes\<close> (lines 70--84)\<close>

definition check_tags_changes ::
  "'s backend \<Rightarrow> string \<Rightarrow> tags \<Rightarrow> string option \<Rightarrow> 's world \<Rightarrow> (py_error + pyval) \<times> 's world" where
  "check_tags_changes b name new_tags runas w =
     (if tags_truthy new_tags then
        (let new_tags' = (case new_tags of
                            TagsStr s \<Rightarrow> str_split s
                          | TagsList l \<Rightarrow> l
                          | TagsNone \<Rightarrow> [])
         in case salt_call (ListUsers runas) (rabbitmq_list_users b runas) w of
              (Inl err, w') \<Rightarrow> (Inr (PList []), w')
            | (Inr users, w') \<Rightarrow>
                (case users name of
                   None \<Rightarrow> (Inl KeyError, w')
                 | Some cur \<Rightarrow> (Inr (PSet (cur - set new_tags')), w')))
      else (Inr (PList []), w))"

section \<open>\<^verbatim>\<open>present\<close> (lines 87--202)\<close>

text \<open>
  The body of \<^verbatim>\<open>present\<close> is cut where its straight-line parts begin: \<open>present\<close> is
  lines 109--155, \<open>present_tags\<close> lines 157--167, \<open>present_perms\<close> lines 168--189 with the
  loop of lines 175--189 as \<open>present_perms_loop\<close>, and \<open>present_finish\<close> lines 191--202.
  Each part ends by running the next one, or by returning (\<open>Inr\<close>) or raising (\<open>Inl\<close>).
  In the loop, \<open>ch\<close> is \<^verbatim>\<open>ret['changes']['perms']\<close> after lines 185--188: the entry that
  is there, or the new one with \<^verbatim>\<open>'new': ''\<close>; line 189 then calls \<^verbatim>\<open>update\<close> on its
  \<^verbatim>\<open>'new'\<close> value.
\<close>

definition present_finish :: "opts \<Rightarrow> string \<Rightarrow> ret \<Rightarrow> ret" where
  "present_finish opts name ret0 =
     (let ret = ret0\<lparr>ret_result := Some True\<rparr> in
      if ret_changes ret = Map.empty then
        ret\<lparr>ret_comment := squote name @ '' is already in the desired state.''\<rparr>
      else if test opts then
        ret\<lparr>ret_result := None,
            ret_comment := ''Configuration for '' @ squote name @ '' will change.''\<rparr>
      else ret\<lparr>ret_comment := squote name @ '' was configured.''\<rparr>)"

fun present_perms_loop ::
  "'s backend \<Rightarrow> opts \<Rightarrow> string \<Rightarrow> string option \<Rightarrow> (string \<rightharpoonup> perm) \<Rightarrow>
   (string \<times> perm) list \<Rightarrow> ret \<Rightarrow> 's world \<Rightarrow> (py_error + ret) \<times> 's world" where
  "present_perms_loop b opts name runas existing_perms [] ret w =
     (Inr (present_finish opts name ret), w)"
| "present_perms_loop b opts name runas existing_perms ((vhost, perm) # rest) ret w =
     (case (if \<not> test opts then
              (case perm of (p0, p1, p2) \<Rightarrow>
                 salt_call (SetPermissions vhost name p0 p1 p2 runas)
                   (rabbitmq_set_permissions b vhost name p0 p1 p2 runas) w)
            else (Inr (), w)) of
        (Inl err, w') \<Rightarrow> (Inr (ret\<lparr>ret_comment := error_comment err\<rparr>), w')
      | (Inr u, w') \<Rightarrow>
          (let ch = (case ret_changes ret ''perms'' of
                       None \<Rightarrow> \<lparr>old = PDict existing_perms, new = PStr ''''\<rparr>
                     | Some ch0 \<Rightarrow> ch0)
           in case py_update (new ch) vhost perm of
                Inl e \<Rightarrow> (Inl e, w')
              | Inr v \<Rightarrow>
                  present_perms_loop b opts name runas existing_perms rest
                    (ret\<lparr>ret_changes := (ret_changes ret)(''perms'' \<mapsto> ch\<lparr>new := v\<rparr>)\<rparr>) w'))"

definition present_perms ::
  "'s backend \<Rightarrow> opts \<Rightarrow> string \<Rightarrow> (string \<times> perm) list list \<Rightarrow> string option \<Rightarrow>
   ret \<Rightarrow> 's world \<Rightarrow> (py_error + ret) \<times> 's world" where
  "present_perms b opts name perms runas ret w =
     (case salt_call (ListUserPermissions name runas)
             (rabbitmq_list_user_permissions b name runas) w of
        (Inl err, w1) \<Rightarrow> (Inr (ret\<lparr>ret_comment := error_comment err\<rparr>), w1)
      | (Inr existing_perms, w1) \<Rightarrow>
          (case check_perms_changes b name perms runas (Some existing_perms) w1 of
             (Inl e, w2) \<Rightarrow> (Inl e, w2)
           | (Inr need, w2) \<Rightarrow>
               (if need then
                  present_perms_loop b opts name runas existing_perms (concat perms) ret w2
                else (Inr (present_finish opts name ret), w2))))"

definition present_tags ::
  "'s backend \<Rightarrow> opts \<Rightarrow> string \<Rightarrow> tags \<Rightarrow> (string \<times> perm) list list \<Rightarrow> string option \<Rightarrow>
   ret \<Rightarrow> 's world \<Rightarrow> (py_error + ret) \<times> 's world" where
  "present_tags b opts name tags perms runas ret w =
     (case check_tags_changes b name tags runas w of
        (Inl e, w1) \<Rightarrow> (Inl e, w1)
      | (Inr new_tags, w1) \<Rightarrow>
          (if truthy new_tags then
             (if \<not> test opts then
                (case salt_call (SetUserTags name tags runas)
                        (rabbitmq_set_user_tags b name tags runas) w1 of
                   (Inl err, w2) \<Rightarrow> (Inr (ret\<lparr>ret_comment := error_comment err\<rparr>), w2)
                 | (Inr u, w2) \<Rightarrow>
                     present_perms b opts name perms runas
                       (ret\<lparr>ret_changes := (ret_changes ret)
                             (''tags'' \<mapsto> \<lparr>old = tags_val tags, new = new_tags\<rparr>)\<rparr>) w2)
              else
                present_perms b opts name perms runas
                  (ret\<lparr>ret_changes := (ret_changes ret)
                        (''tags'' \<mapsto> \<lparr>old = tags_val tags, new = new_tags\<rparr>)\<rparr>) w1)
           else present_perms b opts name perms runas ret w1))"

definition present ::
  "'s backend \<Rightarrow> opts \<Rightarrow> string \<Rightarrow> string option \<Rightarrow> bool \<Rightarrow> tags \<Rightarrow>
   (string \<times> perm) list list \<Rightarrow> string option \<Rightarrow> 's world \<Rightarrow> (py_error + ret) \<times> 's world" where
  "present b opts name password force tags perms runas w =
     (let ret = \<lparr>ret_name = name, ret_result = Some False, ret_comment = '''',
                 ret_changes = Map.empty\<rparr>
      in case salt_call (UserExists name runas) (rabbitmq_user_exists b name runas) w of
           (Inl err, w1) \<Rightarrow> (Inr (ret\<lparr>ret_comment := error_comment err\<rparr>), w1)
         | (Inr user, w1) \<Rightarrow>
             (if user \<and> \<not> py_any [force, perms \<noteq> [], tags_truthy tags] then
                (Inr (ret\<lparr>ret_comment := ''User '' @ squote name @ '' is already present.''\<rparr>), w1)
              else if \<not> user then
                (if \<not> test opts then
                   (case str_foramt ''RabbitMQ user '{0}' doesn't exist - Creating.'' name of
                      Inl e \<Rightarrow> (Inl e, w1)
                    | Inr msg \<Rightarrow>
                        (case salt_call (AddUser name password runas)
                                (rabbitmq_add_user b name password runas) w1 of
                           (Inl err, w2) \<Rightarrow> (Inr (ret\<lparr>ret_comment := error_comment err\<rparr>), w2)
                         | (Inr u, w2) \<Rightarrow>
                             present_tags b opts name tags perms runas
                               (ret\<lparr>ret_changes := (ret_changes ret)
                                     (''user'' \<mapsto> \<lparr>old = PStr '''', new = PStr name\<rparr>)\<rparr>) w2))
                 else
                   present_tags b opts name tags perms runas
                     (ret\<lparr>ret_changes := (ret_changes ret)
                           (''user'' \<mapsto> \<lparr>old = PStr '''', new = PStr name\<rparr>)\<rparr>) w1)
              else if force then
                (case password of
                   Some pw \<Rightarrow>
                     (if \<not> test opts then
                        (case salt_call (ChangePassword name pw runas)
                                (rabbitmq_change_password b name pw runas) w1 of
                           (Inl err, w2) \<Rightarrow> (Inr (ret\<lparr>ret_comment := error_comment err\<rparr>), w2)
                         | (Inr u, w2) \<Rightarrow>
                             present_tags b opts name tags perms runas
                               (ret\<lparr>ret_changes := (ret_changes ret)
                                     (''password'' \<mapsto> \<lparr>old = PStr '''', new = PStr ''Set password.''\<rparr>)\<rparr>)
                               w2)
                      else
                        present_tags b opts name tags perms runas
                          (ret\<lparr>ret_changes := (ret_changes ret)
                                (''password'' \<mapsto> \<lparr>old = PStr '''', new = PStr ''Set password.''\<rparr>)\<rparr>)
                          w1)
                 | None \<Rightarrow>
                     (if \<not> test opts then
                        (case salt_call (ClearPassword name runas)
                                (rabbitmq_clear_password b name runas) w1 of
                           (Inl err, w2) \<Rightarrow> (Inr (ret\<lparr>ret_comment := error_comment err\<rparr>), w2)
                         | (Inr u, w2) \<Rightarrow>
                             present_tags b opts name tags perms runas
                               (ret\<lparr>ret_changes := (ret_changes ret)
                                     (''password'' \<mapsto> \<lparr>old = PStr ''Removed password.'', new = PStr ''''\<rparr>)\<rparr>)
                               w2)
                      else
                        present_tags b opts name tags perms runas
                          (ret\<lparr>ret_changes := (ret_changes ret)
                                (''password'' \<mapsto> \<lparr>old = PStr ''Removed password.'', new = PStr ''''\<rparr>)\<rparr>)
                          w1))
              else present_tags b opts name tags perms runas ret w1))"

section \<open>\<^verbatim>\<open>absent\<close> (lines 205--245)\<close>

definition absent ::
  "'s backend \<Rightarrow> opts \<Rightarrow> string \<Rightarrow> string option \<Rightarrow> 's world \<Rightarrow> (py_error + ret) \<times> 's world" where
  "absent b opts name runas w =
     (let ret = \<lparr>ret_name = name, ret_result = Some False, ret_comment = '''',
                 ret_changes = Map.empty\<rparr>
      in case salt_call (UserExists name runas) (rabbitmq_user_exists b name runas) w of
           (Inl err, w1) \<Rightarrow> (Inr (ret\<lparr>ret_comment := error_comment err\<rparr>), w1)
         | (Inr user_exists, w1) \<Rightarrow>
             (if user_exists then
                (case (if \<not> test opts then
                         salt_call (DeleteUser name runas) (rabbitmq_delete_user b name runas) w1
                       else (Inr (), w1)) of
                   (Inl err, w2) \<Rightarrow> (Inr (ret\<lparr>ret_comment := error_comment err\<rparr>), w2)
                 | (Inr u, w2) \<Rightarrow>
                     (let ret1 = ret\<lparr>ret_changes := (ret_changes ret)
                                      (''name'' \<mapsto> \<lparr>old = PStr name, new = PStr ''''\<rparr>)\<rparr>
                      in if test opts \<and> ret_changes ret1 \<noteq> Map.empty then
                           (Inr (ret1\<lparr>ret_result := None,
                                      ret_comment := ''The user '' @ squote name @ '' will be removed.''\<rparr>), w2)
                         else
                           (Inr (ret1\<lparr>ret_result := Some True,
                                      ret_comment := ''The user '' @ squote name @ '' was removed.''\<rparr>), w2)))
              else
                (Inr (ret\<lparr>ret_result := Some True,
                          ret_comment := ''The user '' @ squote name @ '' is not present.''\<rparr>), w1)))"

section \<open>Observing a run\<close>

text \<open>
  The calls a run adds to the log, and the kinds of call. The mutating functions are
  \<^verbatim>\<open>add_user\<close>, \<^verbatim>\<open>change_password\<close>, \<^verbatim>\<open>clear_password\<close>, \<^verbatim>\<open>set_user_tags\<close>,
  \<^verbatim>\<open>set_permissions\<close> and \<^verbatim>\<open>delete_user\<close>; the reading ones are \<^verbatim>\<open>user_exists\<close>,
  \<^verbatim>\<open>list_users\<close> and \<^verbatim>\<open>list_user_permissions\<close>.
\<close>

fun is_mutator :: "call \<Rightarrow> bool" where
  "is_mutator (UserExists n r) = False"
| "is_mutator (AddUser n p r) = True"
| "is_mutator (ChangePassword n p r) = True"
| "is_mutator (ClearPassword n r) = True"
| "is_mutator (ListUsers r) = False"
| "is_mutator (SetUserTags n t r) = True"
| "is_mutator (ListUserPermissions n r) = False"
| "is_mutator (SetPermissions v n p0 p1 p2 r) = True"
| "is_mutator (DeleteUser n r) = True"

fun is_read :: "call \<Rightarrow> bool" where
  "is_read (UserExists n r) = True"
| "is_read (ListUsers r) = True"
| "is_read (ListUserPermissions n r) = True"
| "is_read c = False"

fun is_set_permissions :: "call \<Rightarrow> bool" where
  "is_set_permissions (SetPermissions v n p0 p1 p2 r) = True"
| "is_set_permissions c = False"

fun is_credential :: "call \<Rightarrow> bool" where
  "is_credential (ChangePassword n p r) = True"
| "is_credential (ClearPassword n r) = True"
| "is_credential c = False"

fun is_list_users :: "call \<Rightarrow> bool" where
  "is_list_users (ListUsers r) = True"
| "is_list_users c = False"

definition new_calls :: "'s world \<Rightarrow> 's world \<Rightarrow> event list" where
  "new_calls w w' = drop (length (calls w)) (calls w')"

text \<open>
  With \<^verbatim>\<open>force\<close>, lines 134--155 call \<^verbatim>\<open>change_password\<close> when a password is given and
  \<^verbatim>\<open>clear_password\<close> when it is \<^verbatim>\<open>None\<close>, and record the entry
  \<^verbatim>\<open>{'old': '', 'new': 'Set password.'}\<close> or \<^verbatim>\<open>{'old': 'Removed password.', 'new': ''}\<close>
  under \<^verbatim>\<open>changes['password']\<close>.
\<close>

definition credential_call :: "string \<Rightarrow> string option \<Rightarrow> string option \<Rightarrow> call" where
  "credential_call name password runas =
     (case password of
        None \<Rightarrow> ClearPassword name runas
      | Some pw \<Rightarrow> ChangePassword name pw runas)"

definition password_change :: "string option \<Rightarrow> change" where
  "password_change password =
     (case password of
        None \<Rightarrow> \<lparr>old = PStr ''Removed password.'', new = PStr ''''\<rparr>
      | Some pw \<Rightarrow> \<lparr>old = PStr '''', new = PStr ''Set password.''\<rparr>)"

text \<open>
  \<open>failures_fatal evs r\<close>: every call of \<open>evs\<close> that raised, other than
  \<^verbatim>\<open>list_users\<close>, is the last call of \<open>evs\<close>, and then \<open>r\<close> is a returned dictionary
  with \<^verbatim>\<open>result = False\<close> and the comment \<^verbatim>\<open>Error: <message>\<close>.
\<close>

fun failures_fatal :: "event list \<Rightarrow> py_error + ret \<Rightarrow> bool" where
  "failures_fatal [] r = True"
| "failures_fatal ((c, Returned) # es) r = failures_fatal es r"
| "failures_fatal ((c, Raised msg) # es) r =
     (if is_list_users c then failures_fatal es r
      else es = [] \<and>
           (case r of
              Inl e \<Rightarrow> False
            | Inr ret \<Rightarrow> ret_result ret = Some False \<and> ret_comment ret = error_comment msg))"

definition harmless :: "event \<Rightarrow> bool" where
  "harmless e = (if is_list_users (fst e) then True else snd e = Returned)"

text \<open>
  \<open>run_ok P w X\<close>: the run with outcome \<open>X\<close> started in \<open>w\<close> keeps the log of \<open>w\<close>,
  adds only calls that satisfy \<open>P\<close>, and its failures are fatal in the sense above.
  \<open>tail_call\<close> and \<open>present_call\<close> list the calls that lines 157--202 and the whole
  of \<^verbatim>\<open>present\<close> can make.
\<close>

definition run_ok :: "(call \<Rightarrow> bool) \<Rightarrow> 's world \<Rightarrow> (py_error + ret) \<times> 's world \<Rightarrow> bool" where
  "run_ok P w X =
     (take (length (calls w)) (calls (snd X)) = calls w
      \<and> list_all (\<lambda>e. P (fst e)) (new_calls w (snd X))
      \<and> failures_fatal (new_calls w (snd X)) (fst X))"

definition tail_call :: "opts \<Rightarrow> string \<Rightarrow> tags \<Rightarrow> string option \<Rightarrow> call \<Rightarrow> bool" where
  "tail_call opts name tags runas c =
     (c = ListUsers runas \<or> c = ListUserPermissions name runas
      \<or> (c = SetUserTags name tags runas \<and> \<not> test opts))"

definition present_call ::
  "opts \<Rightarrow> string \<Rightarrow> string option \<Rightarrow> tags \<Rightarrow> string option \<Rightarrow> call \<Rightarrow> bool" where
  "present_call opts name password tags runas c =
     (c = UserExists name runas \<or> tail_call opts name tags runas c
      \<or> (c = (case password of
                 None \<Rightarrow> ClearPassword name runas
               | Some pw \<Rightarrow> ChangePassword name pw runas) \<and> \<not> test opts))"

section \<open>A test double of the execution module\<close>

text \<open>
  For the closed instances below: a backend without state whose reading functions answer
  from fixed values and whose functions never raise, and variants in which one function
  raises \<^verbatim>\<open>CommandExecutionError\<close> with a given message.
\<close>

definition fake_rabbitmq :: "bool \<Rightarrow> (string \<rightharpoonup> string set) \<Rightarrow> (string \<rightharpoonup> perm) \<Rightarrow> unit backend" where
  "fake_rabbitmq exists users perms =
     \<lparr>rabbitmq_user_exists = (\<lambda>name runas s. (Inr exists, s)),
      rabbitmq_add_user = (\<lambda>name password runas s. (Inr (), s)),
      rabbitmq_change_password = (\<lambda>name password runas s. (Inr (), s)),
      rabbitmq_clear_password = (\<lambda>name runas s. (Inr (), s)),
      rabbitmq_list_users = (\<lambda>runas s. (Inr users, s)),
      rabbitmq_set_user_tags = (\<lambda>name tags runas s. (Inr (), s)),
      rabbitmq_list_user_permissions = (\<lambda>name runas s. (Inr perms, s)),
      rabbitmq_set_permissions = (\<lambda>vhost name conf write read runas s. (Inr (), s)),
      rabbitmq_delete_user = (\<lambda>name runas s. (Inr (), s))\<rparr>"

definition world0 :: "unit world" where
  "world0 = \<lparr>bstate = (), calls = []\<rparr>"

definition failing_list_users :: "string \<Rightarrow> 's backend \<Rightarrow> 's backend" where
  "failing_list_users msg b = b\<lparr>rabbitmq_list_users := (\<lambda>runas s. (Inl msg, s))\<rparr>"

definition failing_list_user_permissions :: "string \<Rightarrow> 's backend \<Rightarrow> 's backend" where
  "failing_list_user_permissions msg b =
     b\<lparr>rabbitmq_list_user_permissions := (\<lambda>name runas s. (Inl msg, s))\<rparr>"

definition failing_clear_password :: "string \<Rightarrow> 's backend \<Rightarrow> 's backend" where
  "failing_clear_password msg b = b\<lparr>rabbitmq_clear_password := (\<lambda>name runas s. (Inl msg, s))\<rparr>"

definition failing_change_password :: "string \<Rightarrow> 's backend \<Rightarrow> 's backend" where
  "failing_change_password msg b =
     b\<lparr>rabbitmq_change_password := (\<lambda>name password runas s. (Inl msg, s))\<rparr>"

section \<open>Basic facts\<close>

text \<open>
  \<^verbatim>\<open>present\<close> passes \<^verbatim>\<open>existing=existing_perms\<close>, which is a dict and not \<^verbatim>\<open>None\<close>, so
  \<^verbatim>\<open>_check_perms_changes\<close> never assigns its local \<^verbatim>\<open>existing_perms\<close>: it returns
  \<^verbatim>\<open>False\<close> when the dicts of \<^verbatim>\<open>newperms\<close> have no item and raises
  \<^verbatim>\<open>UnboundLocalError\<close> otherwise. The loop of lines 175--189 is never entered.
\<close>

lemma perm_need_change_unbound:
  "perm_need_change None items acc = (if items = [] then Inr acc else Inl UnboundLocalError)"
  by (cases items) auto

lemma check_perms_changes_Some:
  "check_perms_changes b name newperms runas (Some e) w =
     (if concat newperms = [] then Inr False else Inl UnboundLocalError, w)"
  by (auto simp: check_perms_changes_def perm_need_change_unbound)

lemma present_perms_eq:
  "present_perms b opts name perms runas ret w =
     (case salt_call (ListUserPermissions name runas)
             (rabbitmq_list_user_permissions b name runas) w of
        (Inl err, w1) \<Rightarrow> (Inr (ret\<lparr>ret_comment := error_comment err\<rparr>), w1)
      | (Inr existing_perms, w1) \<Rightarrow>
          (if concat perms = [] then (Inr (present_finish opts name ret), w1)
           else (Inl UnboundLocalError, w1)))"
  by (simp add: present_perms_def check_perms_changes_Some split: prod.splits sum.splits)

lemma salt_call_eq:
  "salt_call c f w =
     (fst (f (bstate w)),
      \<lparr>bstate = snd (f (bstate w)), calls = calls w @ [(c, outcome_of (fst (f (bstate w))))]\<rparr>)"
  by (simp add: salt_call_def split: prod.splits)

lemma salt_call_calls:
  "salt_call c f w = (r, w') \<Longrightarrow> calls w' = calls w @ [(c, outcome_of r)]"
  by (auto simp: salt_call_eq)

lemmas fake_defs = fake_rabbitmq_def world0_def failing_list_users_def
  failing_list_user_permissions_def failing_clear_password_def failing_change_password_def

lemmas run_defs = present_def present_tags_def present_perms_eq check_tags_changes_def
  present_finish_def salt_call_eq outcome_of_def new_calls_def str_foramt_def error_comment_def

lemma is_credential_credential_call [simp]:
  "is_credential (credential_call name password runas)"
  by (simp add: credential_call_def split: option.splits)

text \<open>The log and the failures of each part of \<^verbatim>\<open>present\<close>, and of \<^verbatim>\<open>absent\<close>.\<close>

lemma failures_fatal_harmless:
  "list_all harmless pre \<Longrightarrow> failures_fatal (pre @ es) r = failures_fatal es r"
  by (induction pre r rule: failures_fatal.induct) (auto simp: harmless_def)

lemma failures_fatal_harmless_only:
  "list_all harmless es \<Longrightarrow> failures_fatal es r"
  using failures_fatal_harmless [of es "[]" r] by simp

lemma failures_fatalD:
  "failures_fatal evs r \<Longrightarrow> evs = es1 @ (c, Raised msg) # es2 \<Longrightarrow> \<not> is_list_users c
   \<Longrightarrow> es2 = [] \<and> (\<exists>ret. r = Inr ret \<and> ret_result ret = Some False
                            \<and> ret_comment ret = error_comment msg)"
proof (induction evs r arbitrary: es1 rule: failures_fatal.induct)
  case (1 r)
  then show ?case by simp
next
  case (2 c' es r)
  then show ?case by (cases es1) auto
next
  case (3 c' msg' es r)
  show ?case
  proof (cases es1)
    case Nil
    then show ?thesis using 3 by (auto split: sum.splits)
  next
    case (Cons a es1')
    then show ?thesis using 3 by (auto split: if_splits)
  qed
qed

lemma run_okI:
  "calls (snd X) = calls w @ evs \<Longrightarrow> list_all (\<lambda>e. P (fst e)) evs \<Longrightarrow> failures_fatal evs (fst X)
   \<Longrightarrow> run_ok P w X"
  by (simp add: run_ok_def new_calls_def)

lemma run_okD:
  assumes "run_ok P w X"
  shows "\<exists>evs. calls (snd X) = calls w @ evs \<and> list_all (\<lambda>e. P (fst e)) evs
               \<and> failures_fatal evs (fst X)"
proof -
  have "calls (snd X) = calls w @ new_calls w (snd X)"
    using assms append_take_drop_id [of "length (calls w)" "calls (snd X)"]
    by (simp add: run_ok_def new_calls_def)
  then show ?thesis
    using assms by (auto simp: run_ok_def)
qed

lemma run_ok_after:
  assumes "run_ok P w1 X"
    and "calls w1 = calls w @ pre"
    and "list_all (\<lambda>e. Q (fst e)) pre"
    and "list_all harmless pre"
    and "\<And>c. P c \<Longrightarrow> Q c"
  shows "run_ok Q w X"
proof -
  obtain evs where evs: "calls (snd X) = calls w1 @ evs" "list_all (\<lambda>e. P (fst e)) evs"
      "failures_fatal evs (fst X)"
    using run_okD [OF assms(1)] by blast
  have "list_all (\<lambda>e. Q (fst e)) evs"
    using evs(2) assms(5) by (auto simp: list_all_iff)
  then show ?thesis
    using evs assms(2-4)
    by (intro run_okI [where evs = "pre @ evs"]) (simp_all add: failures_fatal_harmless)
qed

lemma present_perms_run_ok:
  assumes "ret_result ret = Some False"
  shows "run_ok (\<lambda>c. c = ListUserPermissions name runas) w
           (present_perms b opts name perms runas ret w)"
  using assms
  by (intro run_okI [where evs = "[(ListUserPermissions name runas,
          outcome_of (fst (rabbitmq_list_user_permissions b name runas (bstate w))))]"])
     (simp_all add: present_perms_eq salt_call_eq outcome_of_def split: sum.splits)

lemma check_tags_changes_calls:
  assumes "check_tags_changes b name tags runas w = (r1, w1)"
  shows "\<exists>pre. calls w1 = calls w @ pre \<and> list_all (\<lambda>e. fst e = ListUsers runas) pre"
proof (cases "tags_truthy tags")
  case False
  then show ?thesis using assms by (auto simp: check_tags_changes_def)
next
  case True
  then have "calls w1 = calls w @ [(ListUsers runas,
      outcome_of (fst (rabbitmq_list_users b runas (bstate w))))]"
    using assms
    by (auto simp: check_tags_changes_def salt_call_eq Let_def split: sum.splits option.splits)
  then show ?thesis by simp
qed

lemma present_tags_run_ok:
  assumes res: "ret_result ret = Some False"
  shows "run_ok (tail_call opts name tags runas) w
           (present_tags b opts name tags perms runas ret w)"
proof -
  let ?P = "tail_call opts name tags runas"
  obtain r1 w1 where C: "check_tags_changes b name tags runas w = (r1, w1)"
    by fastforce
  obtain pre where pre: "calls w1 = calls w @ pre" "list_all (\<lambda>e. fst e = ListUsers runas) pre"
    using check_tags_changes_calls [OF C] by blast
  have preP: "list_all (\<lambda>e. ?P (fst e)) pre" and preH: "list_all harmless pre"
    using pre(2) by (auto simp: list_all_iff tail_call_def harmless_def)
  have perms: "run_ok ?P w (present_perms b opts name perms runas ret' w')"
    if "ret_result ret' = Some False" "calls w' = calls w @ pre'"
      "list_all (\<lambda>e. ?P (fst e)) pre'" "list_all harmless pre'" for ret' w' pre'
    using present_perms_run_ok [OF that(1)] that(2-4)
    by (rule run_ok_after) (simp add: tail_call_def)
  show ?thesis
  proof (cases r1)
    case (Inl e)
    then show ?thesis
      using C pre preP preH
      by (intro run_okI [where evs = pre])
         (simp_all add: present_tags_def failures_fatal_harmless_only)
  next
    case (Inr new_tags)
    show ?thesis
    proof (cases "truthy new_tags")
      case False
      then show ?thesis
        using C Inr perms [OF res pre(1) preP preH] by (simp add: present_tags_def)
    next
      case True
      note truthy = this
      show ?thesis
      proof (cases "test opts")
        case True
        then show ?thesis
          using C Inr truthy perms [OF _ pre(1) preP preH] res by (simp add: present_tags_def)
      next
        case False
        obtain r2 w2 where S: "salt_call (SetUserTags name tags runas)
            (rabbitmq_set_user_tags b name tags runas) w1 = (r2, w2)"
          by fastforce
        have c2: "calls w2 = calls w @ (pre @ [(SetUserTags name tags runas, outcome_of r2)])"
          using salt_call_calls [OF S] pre(1) by simp
        show ?thesis
        proof (cases r2)
          case (Inl err)
          have "failures_fatal (pre @ [(SetUserTags name tags runas, Raised err)])
                  (Inr (ret\<lparr>ret_comment := error_comment err\<rparr>))"
            using preH res by (simp add: failures_fatal_harmless)
          then show ?thesis
            using C \<open>r1 = Inr new_tags\<close> truthy False S Inl c2 preP
            by (intro run_okI [where evs = "pre @ [(SetUserTags name tags runas, Raised err)]"])
               (simp_all add: present_tags_def outcome_of_def tail_call_def)
        next
          case (Inr u)
          have "run_ok ?P w (present_perms b opts name perms runas
                  (ret\<lparr>ret_changes := (ret_changes ret)
                        (''tags'' \<mapsto> \<lparr>old = tags_val tags, new = new_tags\<rparr>)\<rparr>) w2)"
            using res preP preH False Inr
            by (intro perms [OF _ c2]) (simp_all add: tail_call_def harmless_def outcome_of_def)
          then show ?thesis
            using C \<open>r1 = Inr new_tags\<close> truthy False S Inr by (simp add: present_tags_def)
        qed
      qed
    qed
  qed
qed

lemma present_run_ok:
  "run_ok (present_call opts name password tags runas) w
     (present b opts name password force tags perms runas w)"
proof -
  let ?Q = "present_call opts name password tags runas"
  obtain r0 w0 where U: "salt_call (UserExists name runas) (rabbitmq_user_exists b name runas) w
      = (r0, w0)"
    by fastforce
  have c0: "calls w0 = calls w @ [(UserExists name runas, outcome_of r0)]"
    using salt_call_calls [OF U] .
  have tail: "run_ok ?Q w (present_tags b opts name tags perms runas ret' w')"
    if "ret_result ret' = Some False" "calls w' = calls w @ pre'"
      "list_all (\<lambda>e. ?Q (fst e)) pre'" "list_all harmless pre'" for ret' w' pre'
    using present_tags_run_ok [OF that(1)] that(2-4)
    by (rule run_ok_after) (simp add: present_call_def)
  show ?thesis
  proof (cases r0)
    case (Inl err)
    then show ?thesis
      using U c0
      by (intro run_okI [where evs = "[(UserExists name runas, Raised err)]"])
         (simp_all add: present_def outcome_of_def present_call_def)
  next
    case (Inr user)
    have c0': "calls w0 = calls w @ [(UserExists name runas, Returned)]"
      using c0 Inr by (simp add: outcome_of_def)
    have Q0: "list_all (\<lambda>e. ?Q (fst e)) [(UserExists name runas, Returned)]"
      and H0: "list_all harmless [(UserExists name runas, Returned)]"
      by (simp_all add: present_call_def harmless_def)
    have tail0: "run_ok ?Q w (present_tags b opts name tags perms runas ret' w0)"
      if "ret_result ret' = Some False" for ret'
      using tail [OF that c0' Q0 H0] .
    consider
        (short) "user" "\<not> py_any [force, perms \<noteq> [], tags_truthy tags]"
      | (create) "\<not> user" "\<not> test opts"
      | (create_dry) "\<not> user" "test opts"
      | (force_dry) "user" "py_any [force, perms \<noteq> [], tags_truthy tags]" "force" "test opts"
      | (force_apply) "user" "py_any [force, perms \<noteq> [], tags_truthy tags]" "force" "\<not> test opts"
      | (keep) "user" "py_any [force, perms \<noteq> [], tags_truthy tags]" "\<not> force"
      by blast
    then show ?thesis
    proof cases
      case short
      then show ?thesis
        using U Inr c0'
        by (intro run_okI [where evs = "[(UserExists name runas, Returned)]"])
           (simp_all add: present_def present_call_def del: py_any.simps)
    next
      case create
      then show ?thesis
        using U Inr c0'
        by (intro run_okI [where evs = "[(UserExists name runas, Returned)]"])
           (simp_all add: present_def present_call_def str_foramt_def del: py_any.simps)
    next
      case create_dry
      then show ?thesis
        using U Inr tail0 by (simp add: present_def del: py_any.simps)
    next
      case force_dry
      then show ?thesis
        using U Inr tail0 by (cases password) (simp_all add: present_def del: py_any.simps)
    next
      case keep
      then show ?thesis
        using U Inr tail0 by (simp add: present_def del: py_any.simps)
    next
      case force_apply
      let ?c = "case password of None \<Rightarrow> ClearPassword name runas
                | Some pw \<Rightarrow> ChangePassword name pw runas"
      let ?f = "case password of None \<Rightarrow> rabbitmq_clear_password b name runas
                | Some pw \<Rightarrow> rabbitmq_change_password b name pw runas"
      obtain r2 w2 where S: "salt_call ?c ?f w0 = (r2, w2)"
        by fastforce
      have c2: "calls w2 = calls w @ [(UserExists name runas, Returned), (?c, outcome_of r2)]"
        using salt_call_calls [OF S] c0' by simp
      show ?thesis
      proof (cases r2)
        case (Inl err)
        then show ?thesis
          using U \<open>r0 = Inr user\<close> force_apply S c2
          by (intro run_okI [where evs = "[(UserExists name runas, Returned), (?c, Raised err)]"])
             (cases password; simp add: present_def outcome_of_def present_call_def del: py_any.simps)+
      next
        case (Inr u)
        have "run_ok ?Q w (present_tags b opts name tags perms runas ret' w2)"
          if "ret_result ret' = Some False" for ret'
          using that force_apply Inr
          by (intro tail [OF _ c2])
             (simp_all add: present_call_def harmless_def outcome_of_def)
        then show ?thesis
          using U \<open>r0 = Inr user\<close> force_apply S Inr
          by (cases password) (simp_all add: present_def del: py_any.simps)
      qed
    qed
  qed
qed

lemma absent_run_ok:
  "run_ok (\<lambda>c. c = UserExists name runas \<or> (c = DeleteUser name runas \<and> \<not> test opts)) w
     (absent b opts name runas w)"
proof -
  let ?u = "fst (rabbitmq_user_exists b name runas (bstate w))"
  let ?w0 = "snd (salt_call (UserExists name runas) (rabbitmq_user_exists b name runas) w)"
  let ?d = "fst (rabbitmq_delete_user b name runas (bstate ?w0))"
  show ?thesis
  proof (cases "?u = Inr True \<and> \<not> test opts")
    case True
    then show ?thesis
      by (intro run_okI [where evs = "[(UserExists name runas, Returned),
             (DeleteUser name runas, outcome_of ?d)]"])
         (simp_all add: absent_def salt_call_eq outcome_of_def Let_def split: sum.splits)
  next
    case False
    then show ?thesis
      by (intro run_okI [where evs = "[(UserExists name runas, outcome_of ?u)]"])
         (auto simp: absent_def salt_call_eq outcome_of_def Let_def split: sum.splits)
  qed
qed

lemma tail_call_not_credential:
  "list_all (\<lambda>e. tail_call opts name tags runas (fst e)) evs
   \<Longrightarrow> filter (\<lambda>e. is_credential (fst e)) evs = []"
  by (auto simp: list_all_iff filter_empty_conv tail_call_def)

text \<open>What the parts of \<^verbatim>\<open>present\<close> after line 155 do to the returned dictionary.\<close>

lemma present_finish_changes:
  "ret_changes (present_finish opts name ret) = ret_changes ret"
  by (simp add: present_finish_def Let_def)

lemma present_finish_comment:
  assumes "ret_changes ret k = Some v"
  shows "ret_comment (present_finish opts name ret) =
           (if test opts then ''Configuration for '' @ squote name @ '' will change.''
            else squote name @ '' was configured.'')"
proof -
  have "ret_changes ret \<noteq> Map.empty"
    using assms by auto
  then show ?thesis
    by (simp add: present_finish_def Let_def)
qed

lemma present_perms_result:
  assumes "fst (present_perms b opts name perms runas ret w) = Inr r"
  shows "ret_changes r = ret_changes ret
         \<and> ((\<exists>err. ret_comment r = error_comment err) \<or> r = present_finish opts name ret)"
  using assms
  by (auto simp: present_perms_eq salt_call_eq present_finish_changes split: sum.splits if_splits)

lemma present_tags_result:
  assumes "fst (present_tags b opts name tags perms runas ret w) = Inr r"
  shows "\<exists>ret'. (ret' = ret \<or> (\<exists>v. ret' = ret\<lparr>ret_changes := (ret_changes ret)(''tags'' \<mapsto> v)\<rparr>))
           \<and> ret_changes r = ret_changes ret'
           \<and> ((\<exists>err. ret_comment r = error_comment err) \<or> r = present_finish opts name ret')"
proof -
  obtain r1 w1 where C: "check_tags_changes b name tags runas w = (r1, w1)"
    by fastforce
  show ?thesis
  proof (cases r1)
    case (Inl e)
    then show ?thesis using assms C by (simp add: present_tags_def)
  next
    case (Inr new_tags)
    let ?ret1 = "ret\<lparr>ret_changes := (ret_changes ret)
                   (''tags'' \<mapsto> \<lparr>old = tags_val tags, new = new_tags\<rparr>)\<rparr>"
    consider (skip) "\<not> truthy new_tags"
      | (dry) "truthy new_tags" "test opts"
      | (applied) "truthy new_tags" "\<not> test opts"
      by blast
    then show ?thesis
    proof cases
      case skip
      then have "fst (present_perms b opts name perms runas ret w1) = Inr r"
        using assms C Inr by (simp add: present_tags_def)
      from present_perms_result [OF this] show ?thesis by blast
    next
      case dry
      then have "fst (present_perms b opts name perms runas ?ret1 w1) = Inr r"
        using assms C Inr by (simp add: present_tags_def)
      from present_perms_result [OF this] show ?thesis by blast
    next
      case applied
      obtain r2 w2 where S: "salt_call (SetUserTags name tags runas)
          (rabbitmq_set_user_tags b name tags runas) w1 = (r2, w2)"
        by fastforce
      show ?thesis
      proof (cases r2)
        case (Inl err)
        then have "r = ret\<lparr>ret_comment := error_comment err\<rparr>"
          using assms C \<open>r1 = Inr new_tags\<close> applied S by (simp add: present_tags_def)
        then show ?thesis by auto
      next
        case (Inr u)
        then have "fst (present_perms b opts name perms runas ?ret1 w2) = Inr r"
          using assms C \<open>r1 = Inr new_tags\<close> applied S by (simp add: present_tags_def)
        from present_perms_result [OF this] show ?thesis by blast
      qed
    qed
  qed
qed

lemma present_tags_password:
  assumes "fst (present_tags b opts name tags perms runas ret w) = Inr r"
    and "ret_changes ret ''password'' = Some v"
  shows "ret_changes r ''password'' = Some v
         \<and> ((\<exists>err. ret_comment r = error_comment err)
            \<or> ret_comment r =
                (if test opts then ''Configuration for '' @ squote name @ '' will change.''
                 else squote name @ '' was configured.''))"
proof -
  obtain ret' where ret':
      "ret' = ret \<or> (\<exists>v. ret' = ret\<lparr>ret_changes := (ret_changes ret)(''tags'' \<mapsto> v)\<rparr>)"
      "ret_changes r = ret_changes ret'"
      "(\<exists>err. ret_comment r = error_comment err) \<or> r = present_finish opts name ret'"
    using present_tags_result [OF assms(1)] by blast
  have pw: "ret_changes ret' ''password'' = Some v"
    using ret'(1) assms(2) by auto
  show ?thesis
    using ret'(2,3) pw present_finish_comment [OF pw, of opts name] by auto
qed

lemma present_force_cases:
  assumes ex: "fst (rabbitmq_user_exists b name runas (bstate w)) = Inr True"
    and force: "force"
  shows "(test opts \<and>
           (\<exists>w0 evs. present b opts name password force tags perms runas w =
                 present_tags b opts name tags perms runas
                   \<lparr>ret_name = name, ret_result = Some False, ret_comment = '''',
                      ret_changes = [''password'' \<mapsto> password_change password]\<rparr> w0
               \<and> new_calls w (snd (present b opts name password force tags perms runas w)) =
                   (UserExists name runas, Returned) # evs
               \<and> list_all (\<lambda>e. tail_call opts name tags runas (fst e)) evs))
       \<or> (\<not> test opts \<and>
           (\<exists>err w2. present b opts name password force tags perms runas w =
                 (Inr \<lparr>ret_name = name, ret_result = Some False,
                        ret_comment = error_comment err, ret_changes = Map.empty\<rparr>, w2)
               \<and> new_calls w w2 =
                   [(UserExists name runas, Returned),
                    (credential_call name password runas, Raised err)]))
       \<or> (\<not> test opts \<and>
           (\<exists>w2 evs. present b opts name password force tags perms runas w =
                 present_tags b opts name tags perms runas
                   \<lparr>ret_name = name, ret_result = Some False, ret_comment = '''',
                      ret_changes = [''password'' \<mapsto> password_change password]\<rparr> w2
               \<and> new_calls w (snd (present b opts name password force tags perms runas w)) =
                   [(UserExists name runas, Returned),
                    (credential_call name password runas, Returned)] @ evs
               \<and> list_all (\<lambda>e. tail_call opts name tags runas (fst e)) evs))"
proof -
  let ?P = "present b opts name password force tags perms runas w"
  let ?ret1 = "\<lparr>ret_name = name, ret_result = Some False, ret_comment = '''',
                 ret_changes = [''password'' \<mapsto> password_change password]\<rparr>"
  let ?c = "credential_call name password runas"
  let ?f = "case password of None \<Rightarrow> rabbitmq_clear_password b name runas
            | Some pw \<Rightarrow> rabbitmq_change_password b name pw runas"
  obtain r0 w0 where U: "salt_call (UserExists name runas) (rabbitmq_user_exists b name runas) w
      = (r0, w0)"
    by fastforce
  have r0: "r0 = Inr True"
    using U ex by (simp add: salt_call_eq)
  have c0: "calls w0 = calls w @ [(UserExists name runas, Returned)]"
    using salt_call_calls [OF U] r0 by (simp add: outcome_of_def)
  have tail: "\<exists>evs. calls (snd (present_tags b opts name tags perms runas ?ret1 w')) = calls w' @ evs
                \<and> list_all (\<lambda>e. tail_call opts name tags runas (fst e)) evs" for w'
    using run_okD [OF present_tags_run_ok [of ?ret1 opts name tags runas w' b perms]] by auto
  show ?thesis
  proof (cases "test opts")
    case True
    have P: "?P = present_tags b opts name tags perms runas ?ret1 w0"
      using U r0 True force
      by (cases password) (simp_all add: present_def password_change_def)
    obtain evs where evs: "calls (snd ?P) = calls w0 @ evs"
        "list_all (\<lambda>e. tail_call opts name tags runas (fst e)) evs"
      using tail [of w0] P by auto
    have "new_calls w (snd ?P) = (UserExists name runas, Returned) # evs"
      using evs(1) c0 by (simp add: new_calls_def)
    then show ?thesis
      using True P evs(2) by blast
  next
    case False
    obtain r2 w2 where S: "salt_call ?c ?f w0 = (r2, w2)"
      by fastforce
    have c2: "calls w2 = calls w @ [(UserExists name runas, Returned), (?c, outcome_of r2)]"
      using salt_call_calls [OF S] c0 by simp
    show ?thesis
    proof (cases r2)
      case (Inl err)
      have "?P = (Inr \<lparr>ret_name = name, ret_result = Some False,
                        ret_comment = error_comment err, ret_changes = Map.empty\<rparr>, w2)"
        using U r0 False force S Inl
        by (cases password) (simp_all add: present_def credential_call_def)
      moreover have "new_calls w w2 = [(UserExists name runas, Returned), (?c, Raised err)]"
        using c2 Inl by (simp add: new_calls_def outcome_of_def)
      ultimately show ?thesis
        using False by blast
    next
      case (Inr u)
      have P: "?P = present_tags b opts name tags perms runas ?ret1 w2"
        using U r0 False force S Inr
        by (cases password) (simp_all add: present_def credential_call_def password_change_def)
      obtain evs where evs: "calls (snd ?P) = calls w2 @ evs"
          "list_all (\<lambda>e. tail_call opts name tags runas (fst e)) evs"
        using tail [of w2] P by auto
      have "new_calls w (snd ?P) = [(UserExists name runas, Returned), (?c, Returned)] @ evs"
        using evs(1) c2 Inr by (simp add: new_calls_def outcome_of_def)
      then show ?thesis
        using False P evs(2) by blast
    qed
  qed
qed

lemma absent_never_raises:
  "\<exists>ret. fst (absent b opts name runas w) = Inr ret"
  by (simp add: absent_def salt_call_eq Let_def split: sum.splits)

section \<open>The claims\<close>

text \<open>
  C1 (the code departs from the claim). In apply mode, when \<^verbatim>\<open>user_exists\<close> reports that
  the user does not exist, \<^verbatim>\<open>present\<close> raises \<^verbatim>\<open>AttributeError\<close> at line 123
  (\<^verbatim>\<open>.foramt\<close>): the only backend call made is \<^verbatim>\<open>user_exists\<close>, so \<^verbatim>\<open>add_user\<close> is never
  called and no result is returned.
\<close>

theorem present_create_raises_before_add_user:
  assumes "\<not> test opts"
    and "fst (rabbitmq_user_exists b name runas (bstate w)) = Inr False"
  shows "fst (present b opts name password force tags perms runas w) = Inl AttributeError
         \<and> new_calls w (snd (present b opts name password force tags perms runas w)) =
             [(UserExists name runas, Returned)]"
  using assms
  by (auto simp: present_def salt_call_def outcome_of_def new_calls_def str_foramt_def
           split: prod.splits sum.splits)

theorem present_create_raises_before_add_user_witness:
  "\<not> test \<lparr>test = False\<rparr>
   \<and> fst (rabbitmq_user_exists (fake_rabbitmq False Map.empty Map.empty) ''bob'' None (bstate world0)) = Inr False
   \<and> fst (present (fake_rabbitmq False Map.empty Map.empty) \<lparr>test = False\<rparr> ''bob'' (Some ''p'') False
        (TagsList []) [] None world0) = Inl AttributeError
   \<and> new_calls world0 (snd (present (fake_rabbitmq False Map.empty Map.empty) \<lparr>test = False\<rparr> ''bob''
        (Some ''p'') False (TagsList []) [] None world0)) = [(UserExists ''bob'' None, Returned)]"
  using present_create_raises_before_add_user [of "\<lparr>test = False\<rparr>"
      "fake_rabbitmq False Map.empty Map.empty" "''bob''" None world0 "Some ''p''" False "TagsList []" "[]"]
  by (simp add: fake_rabbitmq_def world0_def)

text \<open>
  C2 (the code departs from the claim). \<^verbatim>\<open>present\<close> raises to its caller on inputs it
  can receive: \<^verbatim>\<open>AttributeError\<close> when it is to create the user in apply mode (line 123),
  \<^verbatim>\<open>UnboundLocalError\<close> when \<^verbatim>\<open>perms\<close> has an item (line 61), and \<^verbatim>\<open>KeyError\<close> when
  \<^verbatim>\<open>tags\<close> is given and \<^verbatim>\<open>list_users\<close> has no entry for the name (line 78), as in a
  dry run for a user that does not exist yet. Every \<^verbatim>\<open>CommandExecutionError\<close> is caught,
  and \<^verbatim>\<open>absent\<close> never raises (\<open>absent_never_raises\<close>).
\<close>

theorem present_raises_to_caller:
  "fst (present (fake_rabbitmq False Map.empty Map.empty) \<lparr>test = False\<rparr> ''bob'' (Some ''p'') False
         (TagsList []) [] None world0) = Inl AttributeError
   \<and> fst (present (fake_rabbitmq True Map.empty Map.empty) \<lparr>test = False\<rparr> ''bob'' None False
         TagsNone [[(''/'', (''.*'', ''.*'', ''.*''))]] None world0) = Inl UnboundLocalError
   \<and> fst (present (fake_rabbitmq False Map.empty Map.empty) \<lparr>test = True\<rparr> ''bob'' None False
         (TagsList [''administrator'']) [] None world0) = Inl KeyError"
  by (simp add: run_defs fake_defs)

text \<open>
  C3 (the code departs from the claim). When the user exists, \<^verbatim>\<open>force\<close> is false and
  \<^verbatim>\<open>perms\<close> and \<^verbatim>\<open>tags\<close> are empty, \<^verbatim>\<open>present\<close> returns at line 119 with the comment
  \<^verbatim>\<open>User '<name>' is already present.\<close> and empty changes, but \<^verbatim>\<open>result\<close> is still the
  \<^verbatim>\<open>False\<close> of line 109, not \<^verbatim>\<open>True\<close>.
\<close>

theorem present_already_present_result_False:
  assumes "fst (rabbitmq_user_exists b name runas (bstate w)) = Inr True"
    and "\<not> force" and "perms = []" and "\<not> tags_truthy tags"
  shows "fst (present b opts name password force tags perms runas w) =
           Inr \<lparr>ret_name = name, ret_result = Some False,
                ret_comment = ''User '' @ squote name @ '' is already present.'',
                ret_changes = Map.empty\<rparr>"
  using assms
  by (auto simp: present_def salt_call_def split: prod.splits sum.splits)

theorem present_already_present_result_False_witness:
  "fst (rabbitmq_user_exists (fake_rabbitmq True Map.empty Map.empty) ''bob'' None (bstate world0)) = Inr True
   \<and> \<not> False \<and> ([] :: (string \<times> perm) list list) = [] \<and> \<not> tags_truthy (TagsList [])
   \<and> fst (present (fake_rabbitmq True Map.empty Map.empty) \<lparr>test = False\<rparr> ''bob'' (Some ''p'') False
        (TagsList []) [] None world0) =
           Inr \<lparr>ret_name = ''bob'', ret_result = Some False,
                ret_comment = ''User 'bob' is already present.'',
                ret_changes = Map.empty\<rparr>"
  using present_already_present_result_False [of "fake_rabbitmq True Map.empty Map.empty" "''bob''" None
      world0 False "[]" "TagsList []" "\<lparr>test = False\<rparr>" "Some ''p''"]
  by (simp add: fake_rabbitmq_def world0_def squote_def)

text \<open>
  C4 (the code departs from the claim). For a non-empty list of desired tags,
  \<^verbatim>\<open>_check_tags_changes\<close> returns the observed tags minus the desired ones (line 78), not
  the desired tags that are missing from the observed ones.
\<close>

theorem check_tags_changes_observed_minus_desired:
  assumes "fst (rabbitmq_list_users b runas (bstate w)) = Inr users"
    and "users name = Some observed"
    and "desired \<noteq> []"
  shows "fst (check_tags_changes b name (TagsList desired) runas w)
           = Inr (PSet (observed - set desired))"
  using assms by (simp add: check_tags_changes_def salt_call_eq)

theorem check_tags_changes_observed_minus_desired_witness:
  "fst (rabbitmq_list_users (fake_rabbitmq True [''bob'' \<mapsto> {''monitoring''}] Map.empty) None
          (bstate world0)) = Inr [''bob'' \<mapsto> {''monitoring''}]
   \<and> [''bob'' \<mapsto> {''monitoring''}] ''bob'' = Some {''monitoring''}
   \<and> [''administrator''] \<noteq> []
   \<and> fst (check_tags_changes (fake_rabbitmq True [''bob'' \<mapsto> {''monitoring''}] Map.empty) ''bob''
          (TagsList [''administrator'']) None world0) = Inr (PSet {''monitoring''})"
proof -
  have h: "fst (rabbitmq_list_users (fake_rabbitmq True [''bob'' \<mapsto> {''monitoring''}] Map.empty) None
          (bstate world0)) = Inr [''bob'' \<mapsto> {''monitoring''}]"
    by (simp add: fake_defs)
  show ?thesis
    using h check_tags_changes_observed_minus_desired [OF h, of "''bob''" "{''monitoring''}"
        "[''administrator'']"]
    by simp
qed

text \<open>
  So a user without tags for whom \<^verbatim>\<open>administrator\<close> is desired is reported as already in
  the desired state, and \<^verbatim>\<open>set_user_tags\<close> is not called.
\<close>

lemma present_missing_tag_is_not_added:
  "present (fake_rabbitmq True [''bob'' \<mapsto> {}] Map.empty) \<lparr>test = False\<rparr> ''bob'' None False
     (TagsList [''administrator'']) [] None world0 =
   (Inr \<lparr>ret_name = ''bob'', ret_result = Some True,
         ret_comment = squote ''bob'' @ '' is already in the desired state.'',
         ret_changes = Map.empty\<rparr>,
    \<lparr>bstate = (),
      calls = [(UserExists ''bob'' None, Returned), (ListUsers None, Returned),
               (ListUserPermissions ''bob'' None, Returned)]\<rparr>)"
  by (simp add: run_defs fake_defs)

text \<open>
  C5 (the code departs from the claim). No run of \<^verbatim>\<open>present\<close> calls
  \<^verbatim>\<open>rabbitmq.set_permissions\<close>, whatever the desired and the observed permissions are:
  when \<^verbatim>\<open>perms\<close> has an item, \<^verbatim>\<open>_check_perms_changes\<close> raises \<^verbatim>\<open>UnboundLocalError\<close>
  before the loop of lines 175--189 is reached.
\<close>

theorem present_never_calls_set_permissions:
  "list_all (\<lambda>e. \<not> is_set_permissions (fst e))
     (new_calls w (snd (present b opts name password force tags perms runas w)))"
proof -
  have "list_all (\<lambda>e. present_call opts name password tags runas (fst e))
          (new_calls w (snd (present b opts name password force tags perms runas w)))"
    using present_run_ok [of opts name password tags runas w b force perms]
    by (simp add: run_ok_def)
  then show ?thesis
    by (auto simp: list_all_iff present_call_def tail_call_def split: option.splits)
qed

theorem present_never_calls_set_permissions_witness:
  "fst (present (fake_rabbitmq True Map.empty Map.empty) \<lparr>test = False\<rparr> ''bob'' None False TagsNone
          [[(''/'', (''.*'', ''.*'', ''.*''))]] None world0) = Inl UnboundLocalError
   \<and> new_calls world0 (snd (present (fake_rabbitmq True Map.empty Map.empty) \<lparr>test = False\<rparr> ''bob''
          None False TagsNone [[(''/'', (''.*'', ''.*'', ''.*''))]] None world0))
       = [(UserExists ''bob'' None, Returned), (ListUserPermissions ''bob'' None, Returned)]
   \<and> list_all (\<lambda>e. \<not> is_set_permissions (fst e))
        (new_calls world0 (snd (present (fake_rabbitmq True Map.empty Map.empty) \<lparr>test = False\<rparr>
           ''bob'' None False TagsNone [[(''/'', (''.*'', ''.*'', ''.*''))]] None world0)))"
  using present_never_calls_set_permissions [of world0 "fake_rabbitmq True Map.empty Map.empty"
      "\<lparr>test = False\<rparr>" "''bob''" None False TagsNone "[[(''/'', (''.*'', ''.*'', ''.*''))]]" None]
  by (simp add: run_defs fake_defs)

text \<open>
  Were the loop of lines 175--189 entered, its first pass would not get past line 189:
  \<^verbatim>\<open>ret['changes']['perms']['new']\<close> is the \<^verbatim>\<open>''\<close> of line 188, which has no attribute
  \<^verbatim>\<open>update\<close>.
\<close>

lemma present_perms_loop_first_pass:
  assumes "ret_changes ret ''perms'' = None" and "test opts"
  shows "present_perms_loop b opts name runas existing_perms ((vhost, perm) # rest) ret w =
           (Inl AttributeError, w)"
  using assms by simp

text \<open>
  C6, as stated, fails: when \<^verbatim>\<open>list_users\<close> raises, \<^verbatim>\<open>_check_tags_changes\<close> logs the
  error and returns \<^verbatim>\<open>[]\<close> (lines 79--81), and \<^verbatim>\<open>present\<close> goes on and returns
  \<^verbatim>\<open>result = True\<close>.
\<close>

theorem list_users_failure_is_swallowed:
  "present (failing_list_users ''boom'' (fake_rabbitmq True Map.empty Map.empty)) \<lparr>test = False\<rparr>
     ''bob'' None False (TagsList [''administrator'']) [] None world0 =
   (Inr \<lparr>ret_name = ''bob'', ret_result = Some True,
         ret_comment = squote ''bob'' @ '' is already in the desired state.'',
         ret_changes = Map.empty\<rparr>,
    \<lparr>bstate = (),
      calls = [(UserExists ''bob'' None, Returned), (ListUsers None, Raised ''boom''),
               (ListUserPermissions ''bob'' None, Returned)]\<rparr>)"
  by (simp add: run_defs fake_defs)

text \<open>
  C6, amended. In a run of \<^verbatim>\<open>present\<close> or \<^verbatim>\<open>absent\<close>, a backend call other than
  \<^verbatim>\<open>list_users\<close> that raises \<^verbatim>\<open>CommandExecutionError\<close> is the last call of the run, and
  the run returns a dictionary with \<^verbatim>\<open>result = False\<close> and the comment
  \<^verbatim>\<open>Error: <message>\<close>.
\<close>

theorem backend_failure_is_fatal:
  assumes "X = present b opts name password force tags perms runas w
           \<or> X = absent b opts name runas w"
    and "new_calls w (snd X) = es1 @ (c, Raised msg) # es2"
    and "\<not> is_list_users c"
  shows "es2 = [] \<and> (\<exists>ret. fst X = Inr ret \<and> ret_result ret = Some False
                            \<and> ret_comment ret = error_comment msg)"
proof -
  have "failures_fatal (new_calls w (snd X)) (fst X)"
    using assms(1) present_run_ok [of opts name password tags runas w b force perms]
      absent_run_ok [of name runas opts w b]
    by (auto simp: run_ok_def)
  then show ?thesis
    using assms(2,3) by (rule failures_fatalD)
qed

theorem backend_failure_is_fatal_witness:
  "new_calls world0 (snd (present
       (failing_list_user_permissions ''boom'' (fake_rabbitmq True Map.empty Map.empty))
       \<lparr>test = False\<rparr> ''bob'' (Some ''p'') True TagsNone [] None world0))
     = [(UserExists ''bob'' None, Returned), (ChangePassword ''bob'' ''p'' None, Returned)]
       @ (ListUserPermissions ''bob'' None, Raised ''boom'') # []
   \<and> \<not> is_list_users (ListUserPermissions ''bob'' None)
   \<and> (\<exists>ret. fst (present
         (failing_list_user_permissions ''boom'' (fake_rabbitmq True Map.empty Map.empty))
         \<lparr>test = False\<rparr> ''bob'' (Some ''p'') True TagsNone [] None world0) = Inr ret
       \<and> ret_result ret = Some False \<and> ret_comment ret = ''Error: boom'')"
proof -
  let ?X = "present (failing_list_user_permissions ''boom'' (fake_rabbitmq True Map.empty Map.empty))
       \<lparr>test = False\<rparr> ''bob'' (Some ''p'') True TagsNone [] None world0"
  have calls: "new_calls world0 (snd ?X)
     = [(UserExists ''bob'' None, Returned), (ChangePassword ''bob'' ''p'' None, Returned)]
       @ (ListUserPermissions ''bob'' None, Raised ''boom'') # []"
    by (simp add: run_defs fake_defs)
  have nl: "\<not> is_list_users (ListUserPermissions ''bob'' None)" by simp
  show ?thesis
    using calls nl backend_failure_is_fatal [OF disjI1 [OF refl] calls nl]
    by (simp add: error_comment_def)
qed

text \<open>
  C7. In a dry run (\<^verbatim>\<open>__opts__['test']\<close> true), every backend call that \<^verbatim>\<open>present\<close> or
  \<^verbatim>\<open>absent\<close> makes is one of \<^verbatim>\<open>user_exists\<close>, \<^verbatim>\<open>list_users\<close> and
  \<^verbatim>\<open>list_user_permissions\<close>; none is a mutating call.
\<close>

theorem dry_run_only_reads:
  assumes "test opts"
  shows "list_all (\<lambda>e. is_read (fst e) \<and> \<not> is_mutator (fst e))
           (new_calls w (snd (present b opts name password force tags perms runas w)))
       \<and> list_all (\<lambda>e. is_read (fst e) \<and> \<not> is_mutator (fst e))
           (new_calls w (snd (absent b opts name runas w)))"
proof -
  have "list_all (\<lambda>e. present_call opts name password tags runas (fst e))
          (new_calls w (snd (present b opts name password force tags perms runas w)))"
    using present_run_ok [of opts name password tags runas w b force perms]
    by (simp add: run_ok_def)
  moreover have "list_all (\<lambda>e. fst e = UserExists name runas
                      \<or> (fst e = DeleteUser name runas \<and> \<not> test opts))
          (new_calls w (snd (absent b opts name runas w)))"
    using absent_run_ok [of name runas opts w b] by (simp add: run_ok_def)
  ultimately show ?thesis
    using assms by (auto simp: list_all_iff present_call_def tail_call_def)
qed

theorem dry_run_only_reads_witness:
  "test \<lparr>test = True\<rparr>
   \<and> new_calls world0 (snd (present (fake_rabbitmq True Map.empty Map.empty) \<lparr>test = True\<rparr>
         ''bob'' (Some ''p'') True TagsNone [] None world0))
       = [(UserExists ''bob'' None, Returned), (ListUserPermissions ''bob'' None, Returned)]
   \<and> list_all (\<lambda>e. is_read (fst e) \<and> \<not> is_mutator (fst e))
        (new_calls world0 (snd (present (fake_rabbitmq True Map.empty Map.empty) \<lparr>test = True\<rparr>
           ''bob'' (Some ''p'') True TagsNone [] None world0)))
   \<and> list_all (\<lambda>e. is_read (fst e) \<and> \<not> is_mutator (fst e))
        (new_calls world0 (snd (absent (fake_rabbitmq True Map.empty Map.empty) \<lparr>test = True\<rparr>
           ''bob'' None world0)))"
proof -
  have t: "test \<lparr>test = True\<rparr>" by simp
  have "new_calls world0 (snd (present (fake_rabbitmq True Map.empty Map.empty) \<lparr>test = True\<rparr>
         ''bob'' (Some ''p'') True TagsNone [] None world0))
       = [(UserExists ''bob'' None, Returned), (ListUserPermissions ''bob'' None, Returned)]"
    by (simp add: run_defs fake_defs)
  then show ?thesis
    using t dry_run_only_reads [OF t, of world0 "fake_rabbitmq True Map.empty Map.empty"
        "''bob''" "Some ''p''" True TagsNone "[]" None]
    by simp
qed

text \<open>
  C8. A dry-run call of \<^verbatim>\<open>absent\<close> for a user that \<^verbatim>\<open>rabbitmq.user_exists\<close> reports as
  existing calls nothing but \<^verbatim>\<open>user_exists\<close> (so \<^verbatim>\<open>delete_user\<close> is not invoked), and
  returns \<^verbatim>\<open>result = None\<close> with the comment \<^verbatim>\<open>The user '<name>' will be removed.\<close> and
  \<^verbatim>\<open>changes = {'name': {'old': name, 'new': ''}}\<close>.
\<close>

theorem absent_dry_run_will_be_removed:
  assumes "test opts"
    and "fst (rabbitmq_user_exists b name runas (bstate w)) = Inr True"
  shows "fst (absent b opts name runas w) =
           Inr \<lparr>ret_name = name, ret_result = None,
                ret_comment = ''The user '' @ squote name @ '' will be removed.'',
                ret_changes = [''name'' \<mapsto> \<lparr>old = PStr name, new = PStr ''''\<rparr>]\<rparr>
         \<and> new_calls w (snd (absent b opts name runas w)) = [(UserExists name runas, Returned)]"
  using assms
  by (auto simp: absent_def salt_call_def outcome_of_def new_calls_def split: prod.splits sum.splits)

theorem absent_dry_run_will_be_removed_witness:
  "test \<lparr>test = True\<rparr>
   \<and> fst (rabbitmq_user_exists (fake_rabbitmq True Map.empty Map.empty) ''bob'' None (bstate world0)) = Inr True
   \<and> fst (absent (fake_rabbitmq True Map.empty Map.empty) \<lparr>test = True\<rparr> ''bob'' None world0) =
           Inr \<lparr>ret_name = ''bob'', ret_result = None,
                ret_comment = ''The user 'bob' will be removed.'',
                ret_changes = [''name'' \<mapsto> \<lparr>old = PStr ''bob'', new = PStr ''''\<rparr>]\<rparr>
   \<and> new_calls world0 (snd (absent (fake_rabbitmq True Map.empty Map.empty) \<lparr>test = True\<rparr> ''bob'' None world0))
       = [(UserExists ''bob'' None, Returned)]"
  using absent_dry_run_will_be_removed [of "\<lparr>test = True\<rparr>" "fake_rabbitmq True Map.empty Map.empty" "''bob''" None world0]
  by (simp add: fake_rabbitmq_def world0_def squote_def)

text \<open>
  C9, as stated, fails on the entry in \<^verbatim>\<open>changes\<close>: when \<^verbatim>\<open>clear_password\<close> raises,
  it has been called, but \<^verbatim>\<open>present\<close> returns at line 152 before
  \<^verbatim>\<open>changes['password']\<close> is recorded.
\<close>

theorem clear_password_failure_records_no_change:
  "present (failing_clear_password ''boom'' (fake_rabbitmq True Map.empty Map.empty))
     \<lparr>test = False\<rparr> ''bob'' None True TagsNone [] None world0 =
   (Inr \<lparr>ret_name = ''bob'', ret_result = Some False, ret_comment = ''Error: boom'',
         ret_changes = Map.empty\<rparr>,
    \<lparr>bstate = (),
      calls = [(UserExists ''bob'' None, Returned), (ClearPassword ''bob'' None, Raised ''boom'')]\<rparr>)"
  by (simp add: run_defs fake_defs)

text \<open>
  C9, amended. In apply mode, when the user exists and \<^verbatim>\<open>force\<close> is set, a run of
  \<^verbatim>\<open>present\<close> makes exactly one credential call: \<^verbatim>\<open>clear_password\<close> when the password
  is \<^verbatim>\<open>None\<close>, \<^verbatim>\<open>change_password\<close> with the password otherwise, never both. When that
  call returns, every dictionary the run returns has the matching entry under
  \<^verbatim>\<open>changes['password']\<close>; when it raises, the returned dictionary has none.
\<close>

theorem present_force_apply_one_credential_call:
  assumes "\<not> test opts"
    and "fst (rabbitmq_user_exists b name runas (bstate w)) = Inr True"
    and "force"
  shows "\<exists>oc. filter (\<lambda>e. is_credential (fst e))
                (new_calls w (snd (present b opts name password force tags perms runas w)))
              = [(credential_call name password runas, oc)]
           \<and> (\<forall>r. fst (present b opts name password force tags perms runas w) = Inr r \<longrightarrow>
                  ret_changes r ''password'' =
                    (case oc of
                       Returned \<Rightarrow> Some (password_change password)
                     | Raised msg \<Rightarrow> None))"
proof -
  let ?P = "present b opts name password force tags perms runas w"
  from present_force_cases [OF assms(2,3), of opts password tags perms] assms(1)
  consider
      (failed) err w2 where
        "?P = (Inr \<lparr>ret_name = name, ret_result = Some False,
                     ret_comment = error_comment err, ret_changes = Map.empty\<rparr>, w2)"
        "new_calls w w2 =
           [(UserExists name runas, Returned), (credential_call name password runas, Raised err)]"
    | (applied) w2 evs where
        "?P = present_tags b opts name tags perms runas
                \<lparr>ret_name = name, ret_result = Some False, ret_comment = '''',
                   ret_changes = [''password'' \<mapsto> password_change password]\<rparr> w2"
        "new_calls w (snd ?P) =
           [(UserExists name runas, Returned), (credential_call name password runas, Returned)] @ evs"
        "list_all (\<lambda>e. tail_call opts name tags runas (fst e)) evs"
    by blast
  then show ?thesis
  proof cases
    case failed
    then show ?thesis
      by (intro exI [where x = "Raised err"]) simp
  next
    case applied
    have "ret_changes r ''password'' = Some (password_change password)" if "fst ?P = Inr r" for r
      using present_tags_password [of b opts name tags perms runas _ w2 r "password_change password"]
        that applied(1)
      by simp
    then show ?thesis
      using applied(2) tail_call_not_credential [OF applied(3)]
      by (intro exI [where x = Returned]) simp
  qed
qed

theorem present_force_apply_one_credential_call_witness:
  "\<not> test \<lparr>test = False\<rparr>
   \<and> fst (rabbitmq_user_exists (fake_rabbitmq True Map.empty Map.empty) ''bob'' None
          (bstate world0)) = Inr True
   \<and> credential_call ''bob'' None None = ClearPassword ''bob'' None
   \<and> filter (\<lambda>e. is_credential (fst e))
        (new_calls world0 (snd (present (fake_rabbitmq True Map.empty Map.empty) \<lparr>test = False\<rparr>
           ''bob'' None True TagsNone [] None world0)))
       = [(ClearPassword ''bob'' None, Returned)]
   \<and> fst (present (fake_rabbitmq True Map.empty Map.empty) \<lparr>test = False\<rparr> ''bob'' None True
          TagsNone [] None world0) =
       Inr \<lparr>ret_name = ''bob'', ret_result = Some True,
            ret_comment = squote ''bob'' @ '' was configured.'',
            ret_changes = [''password'' \<mapsto> \<lparr>old = PStr ''Removed password.'', new = PStr ''''\<rparr>]\<rparr>"
proof -
  have h1: "\<not> test \<lparr>test = False\<rparr>" by simp
  have h2: "fst (rabbitmq_user_exists (fake_rabbitmq True Map.empty Map.empty) ''bob'' None
          (bstate world0)) = Inr True"
    by (simp add: fake_defs)
  show ?thesis
    using present_force_apply_one_credential_call [OF h1 h2 TrueI, of None TagsNone "[]"]
    by (simp add: run_defs fake_defs credential_call_def)
qed

text \<open>
  C10, as stated, fails: when the credential call raises, \<^verbatim>\<open>present\<close> returns at line
  141 (or 152) with empty \<^verbatim>\<open>changes\<close>.
\<close>

theorem change_password_failure_leaves_changes_empty:
  "present (failing_change_password ''boom'' (fake_rabbitmq True Map.empty Map.empty))
     \<lparr>test = False\<rparr> ''bob'' (Some ''p'') True TagsNone [] None world0 =
   (Inr \<lparr>ret_name = ''bob'', ret_result = Some False, ret_comment = ''Error: boom'',
         ret_changes = Map.empty\<rparr>,
    \<lparr>bstate = (),
      calls = [(UserExists ''bob'' None, Returned),
               (ChangePassword ''bob'' ''p'' None, Raised ''boom'')]\<rparr>)"
  by (simp add: run_defs fake_defs)

text \<open>
  C10, amended. When the user exists and \<^verbatim>\<open>force\<close> is set, a dictionary returned by
  \<^verbatim>\<open>present\<close> never carries the comment \<^verbatim>\<open>'<name>' is already in the desired state.\<close>
  or \<^verbatim>\<open>User '<name>' is already present.\<close>; unless the credential call raised (then
  \<^verbatim>\<open>result\<close> is \<^verbatim>\<open>False\<close> and \<^verbatim>\<open>changes\<close> is empty), it has the password entry under
  \<^verbatim>\<open>changes['password']\<close>, in a dry run as well.
\<close>

theorem present_force_never_noop:
  assumes "fst (rabbitmq_user_exists b name runas (bstate w)) = Inr True"
    and "force"
    and "fst (present b opts name password force tags perms runas w) = Inr r"
  shows "ret_comment r \<noteq> squote name @ '' is already in the desired state.''
       \<and> ret_comment r \<noteq> ''User '' @ squote name @ '' is already present.''
       \<and> (if list_ex (\<lambda>e. is_credential (fst e) \<and> snd e \<noteq> Returned)
               (new_calls w (snd (present b opts name password force tags perms runas w)))
          then ret_result r = Some False \<and> ret_changes r = Map.empty
          else ret_changes r ''password'' = Some (password_change password))"
proof -
  let ?P = "present b opts name password force tags perms runas w"
  let ?ret1 = "\<lparr>ret_name = name, ret_result = Some False, ret_comment = '''',
                 ret_changes = [''password'' \<mapsto> password_change password]\<rparr>"
  have noop: "c \<noteq> squote name @ '' is already in the desired state.''
            \<and> c \<noteq> ''User '' @ squote name @ '' is already present.''"
    if "(\<exists>err. c = error_comment err)
        \<or> c = (if test opts then ''Configuration for '' @ squote name @ '' will change.''
               else squote name @ '' was configured.'')" for c
    using that by (auto simp: error_comment_def squote_def split: if_splits)
  have tags: "ret_comment r \<noteq> squote name @ '' is already in the desired state.''
       \<and> ret_comment r \<noteq> ''User '' @ squote name @ '' is already present.''
       \<and> ret_changes r ''password'' = Some (password_change password)"
    if "?P = present_tags b opts name tags perms runas ?ret1 w'" for w'
    using present_tags_password [of b opts name tags perms runas ?ret1 w' r
        "password_change password"] that assms(3) noop [of "ret_comment r"]
    by simp
  from present_force_cases [OF assms(1,2), of opts password tags perms]
  consider
      (dry) w0 evs where
        "?P = present_tags b opts name tags perms runas ?ret1 w0"
        "new_calls w (snd ?P) = (UserExists name runas, Returned) # evs"
        "list_all (\<lambda>e. tail_call opts name tags runas (fst e)) evs"
    | (failed) err w2 where
        "?P = (Inr \<lparr>ret_name = name, ret_result = Some False,
                     ret_comment = error_comment err, ret_changes = Map.empty\<rparr>, w2)"
        "new_calls w w2 =
           [(UserExists name runas, Returned), (credential_call name password runas, Raised err)]"
    | (applied) w2 evs where
        "?P = present_tags b opts name tags perms runas ?ret1 w2"
        "new_calls w (snd ?P) =
           [(UserExists name runas, Returned), (credential_call name password runas, Returned)] @ evs"
        "list_all (\<lambda>e. tail_call opts name tags runas (fst e)) evs"
    by blast
  then show ?thesis
  proof cases
    case dry
    have "\<not> list_ex (\<lambda>e. is_credential (fst e) \<and> snd e \<noteq> Returned) evs"
      using dry(3) by (auto simp: list_all_iff list_ex_iff tail_call_def)
    then show ?thesis
      using tags [OF dry(1)] dry(2) by simp
  next
    case failed
    have r: "ret_comment r = error_comment err" "ret_result r = Some False"
        "ret_changes r = Map.empty"
      using failed(1) assms(3) by auto
    have "ret_comment r \<noteq> squote name @ '' is already in the desired state.''
        \<and> ret_comment r \<noteq> ''User '' @ squote name @ '' is already present.''"
      using r(1) by (simp add: error_comment_def squote_def)
    then show ?thesis
      using r(2,3) failed by simp
  next
    case applied
    have "\<not> list_ex (\<lambda>e. is_credential (fst e) \<and> snd e \<noteq> Returned) evs"
      using applied(3) by (auto simp: list_all_iff list_ex_iff tail_call_def)
    then show ?thesis
      using tags [OF applied(1)] applied(2) by simp
  qed
qed

theorem present_force_never_noop_witness:
  "fst (rabbitmq_user_exists (fake_rabbitmq True Map.empty Map.empty) ''bob'' None
          (bstate world0)) = Inr True
   \<and> fst (present (fake_rabbitmq True Map.empty Map.empty) \<lparr>test = True\<rparr> ''bob'' (Some ''p'') True
          TagsNone [] None world0) =
       Inr \<lparr>ret_name = ''bob'', ret_result = None,
            ret_comment = ''Configuration for '' @ squote ''bob'' @ '' will change.'',
            ret_changes = [''password'' \<mapsto> \<lparr>old = PStr '''', new = PStr ''Set password.''\<rparr>]\<rparr>
   \<and> ''Configuration for '' @ squote ''bob'' @ '' will change.''
        \<noteq> squote ''bob'' @ '' is already in the desired state.''
   \<and> ''Configuration for '' @ squote ''bob'' @ '' will change.''
        \<noteq> ''User '' @ squote ''bob'' @ '' is already present.''
   \<and> password_change (Some ''p'') = \<lparr>old = PStr '''', new = PStr ''Set password.''\<rparr>"
proof -
  have h1: "fst (rabbitmq_user_exists (fake_rabbitmq True Map.empty Map.empty) ''bob'' None
          (bstate world0)) = Inr True"
    by (simp add: fake_defs)
  have h2: "fst (present (fake_rabbitmq True Map.empty Map.empty) \<lparr>test = True\<rparr> ''bob''
          (Some ''p'') True TagsNone [] None world0) =
       Inr \<lparr>ret_name = ''bob'', ret_result = None,
            ret_comment = ''Configuration for '' @ squote ''bob'' @ '' will change.'',
            ret_changes = [''password'' \<mapsto> \<lparr>old = PStr '''', new = PStr ''Set password.''\<rparr>]\<rparr>"
    by (simp add: run_defs fake_defs)
  show ?thesis
    using h1 h2 present_force_never_noop [OF h1 TrueI h2]
    by (simp add: password_change_def squote_def)
qed

end
